theory Spec2Isabelle
  imports Main "HOL-Library.FSet"
begin

section \<open>Python strings\<close>

text \<open>
  Text is modelled as \<open>string\<close>: one \<open>char\<close> per Python code point, for the code points
  0 to 255 (Latin-1). The string methods the program calls are written out below with
  Python's behaviour on these code points.
\<close>

definition lower_char :: "char \<Rightarrow> char" where
  "lower_char c =
     (let n = (of_char c :: nat)
      in if (65 \<le> n \<and> n \<le> 90) \<or> (192 \<le> n \<and> n \<le> 222 \<and> n \<noteq> 215)
         then char_of (n + 32) else c)"

definition lower :: "string \<Rightarrow> string" where
  "lower s = map lower_char s"

definition startswith :: "string \<Rightarrow> string \<Rightarrow> bool" where
  "startswith s p = (take (length p) s = p)"

definition endswith :: "string \<Rightarrow> string \<Rightarrow> bool" where
  "endswith s p = (length p \<le> length s \<and> drop (length s - length p) s = p)"

text \<open>\<open>str_in p s\<close> is Python's \<open>p in s\<close> on strings: \<open>p\<close> occurs in \<open>s\<close> as a substring.\<close>

fun str_in :: "string \<Rightarrow> string \<Rightarrow> bool" where
  "str_in p [] = (p = [])"
| "str_in p (c # cs) = (startswith (c # cs) p \<or> str_in p cs)"

text \<open>\<open>str.isspace\<close> on one code point below 256.\<close>

definition isspace :: "char \<Rightarrow> bool" where
  "isspace c =
     (let n = (of_char c :: nat)
      in (9 \<le> n \<and> n \<le> 13) \<or> (28 \<le> n \<and> n \<le> 32) \<or> n = 133 \<or> n = 160)"

text \<open>
  \<open>s.split()\<close> with no argument: the maximal runs of non-whitespace characters of \<open>s\<close>,
  in order. \<open>split_from w s\<close> carries the word \<open>w\<close> read so far.
\<close>

fun split_from :: "string \<Rightarrow> string \<Rightarrow> string list" where
  "split_from w [] = (if w = [] then [] else [w])"
| "split_from w (c # cs) =
     (if isspace c then (if w = [] then split_from [] cs else w # split_from [] cs)
      else split_from (w @ [c]) cs)"

definition split :: "string \<Rightarrow> string list" where
  "split s = split_from [] s"

text \<open>\<open>sep.join(ws)\<close>.\<close>

fun join :: "string \<Rightarrow> string list \<Rightarrow> string" where
  "join sep [] = []"
| "join sep [w] = w"
| "join sep (w # v # ws) = w @ sep @ join sep (v # ws)"

text \<open>\<open>str(n)\<close> for a non-negative integer: its decimal digits.\<close>

definition digit_char :: "nat \<Rightarrow> char" where
  "digit_char d = char_of (48 + d)"

fun str_nat :: "nat \<Rightarrow> string" where
  "str_nat n = (if n < 10 then [digit_char n] else str_nat (n div 10) @ [digit_char (n mod 10)])"

declare str_nat.simps [simp del]

text \<open>
  \<open>os.path.splitext\<close> of \<open>posixpath\<close>: the extension starts at the last dot, provided
  that dot comes after the last slash and some character between the two is not a dot.
\<close>

fun find_last :: "char \<Rightarrow> string \<Rightarrow> nat \<Rightarrow> int \<Rightarrow> int" where
  "find_last c [] i r = r"
| "find_last c (x # xs) i r = find_last c xs (Suc i) (if x = c then int i else r)"

definition rfind :: "string \<Rightarrow> char \<Rightarrow> int" where
  "rfind p c = find_last c p 0 (- 1)"

definition splitext :: "string \<Rightarrow> string \<times> string" where
  "splitext p =
     (let sepIndex = rfind p CHR ''/''; dotIndex = rfind p CHR ''.''
      in if dotIndex > sepIndex
            \<and> list_ex (\<lambda>k. p ! k \<noteq> CHR ''.'') [nat (sepIndex + 1) ..< nat dotIndex]
         then (take (nat dotIndex) p, drop (nat dotIndex) p)
         else (p, []))"

section \<open>The downloader of \<open>polisci_pdf_downloader.py\<close>\<close>

subsection \<open>\<open>sanitize_filename\<close>\<close>

text \<open>The character class \<open>[<>:"/\\|?*]\<close> of the regular expression.\<close>

definition invalid_chars :: "char list" where
  "invalid_chars =
     [CHR ''<'', CHR ''>'', CHR '':'', CHR 0x22, CHR ''/'', CHR 0x5C, CHR ''|'', CHR ''?'', CHR ''*'']"

definition replace_invalid :: "char \<Rightarrow> char" where
  "replace_invalid c = (if c \<in> set invalid_chars then CHR ''_'' else c)"

definition sanitize_filename :: "string \<Rightarrow> string" where
  "sanitize_filename filename = take 200 (join '' '' (split (map replace_invalid filename)))"

text \<open>
  Two notions for stating what a sanitized name looks like: a string with two whitespace
  characters in a row, and a list of words that are not empty and hold no whitespace.
\<close>

fun adjacent_spaces :: "string \<Rightarrow> bool" where
  "adjacent_spaces [] = False"
| "adjacent_spaces [c] = False"
| "adjacent_spaces (a # b # cs) = ((isspace a \<and> isspace b) \<or> adjacent_spaces (b # cs))"

definition words_clean :: "string list \<Rightarrow> bool" where
  "words_clean ws = (\<forall>x \<in> set ws. x \<noteq> [] \<and> (\<forall>c \<in> set x. \<not> isspace c))"

subsection \<open>The world a download acts on\<close>

text \<open>
  \<open>downloaded_files\<close> is the downloader's set of claimed names, \<open>folder\<close> the files of
  its download folder (name to bytes) and \<open>requests\<close> the URLs fetched so far, oldest
  first.
\<close>

record world =
  downloaded_files :: "string fset"
  folder :: "string \<rightharpoonup> nat list"
  requests :: "string list"

record pdf_info =
  url :: string
  title :: string

text \<open>
  What \<open>session.get\<close> followed by \<open>raise_for_status\<close> gives: an exception, or a response
  with its \<open>content-type\<close> header (the empty string when the header is absent) and its
  body.
\<close>

datatype http_result = Request_failed | Response string "nat list"

text \<open>
  The environment of one call: \<open>url_filename u\<close> is
  \<open>os.path.basename(urlparse(u).path)\<close>, \<open>None\<close> when \<open>urlparse\<close> raises;
  \<open>http_get u\<close> is the outcome of fetching \<open>u\<close>; \<open>can_write f\<close> tells whether
  opening \<open>f\<close> in the download folder for writing succeeds.
\<close>

record env =
  url_filename :: "string \<Rightarrow> string option"
  http_get :: "string \<Rightarrow> http_result"
  can_write :: "string \<Rightarrow> bool"

subsection \<open>\<open>download_pdf\<close>\<close>

text \<open>Lines 165 to 177: the base filename, from the title or from the URL.\<close>

definition base_filename :: "env \<Rightarrow> pdf_info \<Rightarrow> string option" where
  "base_filename e info =
     (case url_filename e (url info) of
        None \<Rightarrow> None
      | Some uf \<Rightarrow>
          let b = (if length (title info) > 10 \<and> \<not> startswith (lower (title info)) ''http''
                   then (let s = sanitize_filename (title info)
                         in if endswith (lower s) ''.pdf'' then s else s @ ''.pdf'')
                   else (if endswith uf ''.pdf'' then uf else ''polisci_syllabus.pdf''))
          in Some (if startswith (lower b) ''polisci_'' then b else ''polisci_'' @ b))"

text \<open>
  The loop of lines 181 to 186. \<open>filename\<close> is the current candidate and \<open>counter\<close> the
  next suffix to try.
\<close>

definition suffixed :: "string \<Rightarrow> nat \<Rightarrow> string" where
  "suffixed base counter = (case splitext base of (name, ext) \<Rightarrow> name @ ''_'' @ str_nat counter @ ext)"

function unique_filename :: "string fset \<Rightarrow> string \<Rightarrow> string \<Rightarrow> nat \<Rightarrow> string" where
  "unique_filename files base filename counter =
     (if filename |\<in>| files
      then unique_filename files base (suffixed base counter) (counter + 1)
      else filename)"
  by pat_completeness auto

text \<open>
  The loop ends because the set of claimed names is finite and the suffixed names for
  different counters are different strings.
\<close>

lemma digit_char_inj: "a < 10 \<Longrightarrow> b < 10 \<Longrightarrow> digit_char a = digit_char b \<Longrightarrow> a = b"
proof -
  assume a: "a < 10" and b: "b < 10" and e: "digit_char a = digit_char b"
  from e have "(of_char (char_of (48 + a)) :: nat) = of_char (char_of (48 + b))"
    by (simp add: digit_char_def)
  with a b show "a = b" by (simp add: of_char_of)
qed

lemma str_nat_nonempty: "str_nat n \<noteq> []"
  by (subst str_nat.simps) simp

lemma str_nat_length_one: "length (str_nat n) = 1 \<Longrightarrow> n < 10"
  by (subst (asm) str_nat.simps) (auto simp: str_nat_nonempty split: if_splits)

lemma str_nat_inj: "str_nat n = str_nat m \<Longrightarrow> n = m"
proof (induction n arbitrary: m rule: str_nat.induct)
  case (1 n)
  show ?case
  proof (cases "n < 10")
    case True
    then have sn: "str_nat n = [digit_char n]" by (subst str_nat.simps) simp
    have "length (str_nat m) = length (str_nat n)" using "1.prems" by simp
    with sn have "length (str_nat m) = 1" by simp
    then have m: "m < 10" by (rule str_nat_length_one)
    then have "str_nat m = [digit_char m]" by (subst str_nat.simps) simp
    with sn "1.prems" True m show ?thesis by (auto dest: digit_char_inj)
  next
    case False
    then have sn: "str_nat n = str_nat (n div 10) @ [digit_char (n mod 10)]"
      by (subst str_nat.simps) simp
    have m: "\<not> m < 10"
    proof
      assume "m < 10"
      then have "str_nat m = [digit_char m]" by (subst str_nat.simps) simp
      with sn "1.prems" have "str_nat (n div 10) = []" by simp
      then show False by (simp add: str_nat_nonempty)
    qed
    then have sm: "str_nat m = str_nat (m div 10) @ [digit_char (m mod 10)]"
      by (subst str_nat.simps) simp
    from sn sm "1.prems" have e1: "str_nat (n div 10) = str_nat (m div 10)"
      and e2: "digit_char (n mod 10) = digit_char (m mod 10)" by simp_all
    from "1.IH" [OF False e1] have d: "n div 10 = m div 10" .
    have r: "n mod 10 = m mod 10" by (rule digit_char_inj [OF _ _ e2]) simp_all
    from d r show ?thesis by (metis div_mult_mod_eq)
  qed
qed

lemma suffixed_inj: "suffixed base c = suffixed base d \<Longrightarrow> c = d"
  by (auto simp: suffixed_def split: prod.splits dest: str_nat_inj)

lemma finite_suffixes: "finite {c. suffixed base c |\<in>| files}"
proof -
  have "inj (suffixed base)" by (rule injI) (rule suffixed_inj)
  then have "finite (suffixed base -` fset files)" by (rule finite_vimageI [OF finite_fset])
  moreover have "{c. suffixed base c |\<in>| files} = suffixed base -` fset files" by auto
  ultimately show ?thesis by simp
qed

termination unique_filename
proof (relation "measure (\<lambda>(files, base, filename, counter).
         2 * card {c. counter \<le> c \<and> suffixed base c |\<in>| files} + (if filename |\<in>| files then 1 else 0))")
  show "wf (measure (\<lambda>(files, base, filename, counter).
         2 * card {c. counter \<le> c \<and> suffixed base c |\<in>| files} + (if filename |\<in>| files then 1 else 0)))"
    by simp
next
  fix files :: "string fset" and base filename :: string and counter :: nat
  assume claimed: "filename |\<in>| files"
  let ?A = "{c. counter \<le> c \<and> suffixed base c |\<in>| files}"
  let ?B = "{c. counter + 1 \<le> c \<and> suffixed base c |\<in>| files}"
  have fin: "finite ?A" by (rule finite_subset [OF _ finite_suffixes [of base files]]) auto
  have sub: "?B \<subseteq> ?A" by auto
  have "2 * card ?B + (if suffixed base counter |\<in>| files then 1 else 0) < 2 * card ?A + 1"
  proof (cases "suffixed base counter |\<in>| files")
    case True
    then have "counter \<in> ?A" "counter \<notin> ?B" by auto
    with sub have "?B \<subset> ?A" by blast
    with fin have "card ?B < card ?A" by (rule psubset_card_mono)
    with True show ?thesis by simp
  next
    case False
    from fin sub have "card ?B \<le> card ?A" by (rule card_mono)
    with False show ?thesis by simp
  qed
  with claimed
  show "((files, base, suffixed base counter, counter + 1), (files, base, filename, counter))
        \<in> measure (\<lambda>(files, base, filename, counter).
         2 * card {c. counter \<le> c \<and> suffixed base c |\<in>| files} + (if filename |\<in>| files then 1 else 0))"
    by simp
qed

declare unique_filename.simps [simp del]

text \<open>
  Lines 180 to 197, the block under \<open>self.lock\<close>: choose the name, look for the file and
  register the name. The result is the chosen name, whether the file already exists (the
  call then returns \<open>True\<close> at once) and the new world. Set membership, \<open>splitext\<close>,
  the path join, \<open>exists\<close> and the printing of messages are taken not to raise.
\<close>

definition claim :: "world \<Rightarrow> string \<Rightarrow> string \<times> bool \<times> world" where
  "claim w base =
     (let filename = unique_filename (downloaded_files w) base base 1
      in (filename, filename \<in> dom (folder w),
          w\<lparr>downloaded_files := finsert filename (downloaded_files w)\<rparr>))"

text \<open>
  How a call ends, one constructor for each of the four messages the function prints:
  "Skipping (already exists)", "Downloaded", "Not a valid PDF", "Error downloading".
\<close>

datatype outcome = Skipped_existing | Downloaded | Not_valid_pdf | Download_error

definition success :: "outcome \<Rightarrow> bool" where
  "success out = (out = Skipped_existing \<or> out = Downloaded)"

definition discard :: "string \<Rightarrow> world \<Rightarrow> world" where
  "discard filename w = w\<lparr>downloaded_files := downloaded_files w |-| {|filename|}\<rparr>"

text \<open>
  Lines 199 to 226: the transfer of \<open>u\<close> into the claimed \<open>filename\<close>, given what the
  request gives (\<open>r\<close>) and whether the file can be opened for writing.
\<close>

definition transfer :: "world \<Rightarrow> string \<Rightarrow> string \<Rightarrow> http_result \<Rightarrow> bool \<Rightarrow> outcome \<times> world" where
  "transfer w u filename r writable =
     (let w1 = w\<lparr>requests := requests w @ [u]\<rparr>
      in case r of
           Request_failed \<Rightarrow> (Download_error, discard filename w1)
         | Response content_type content \<Rightarrow>
             if \<not> str_in ''application/pdf'' (lower content_type) \<and> length content < 1024
             then (Not_valid_pdf, discard filename w1)
             else if writable
             then (Downloaded, w1\<lparr>folder := (folder w1)(filename \<mapsto> content)\<rparr>)
             else (Download_error, discard filename w1))"

definition download_pdf_outcome :: "env \<Rightarrow> world \<Rightarrow> pdf_info \<Rightarrow> outcome \<times> world" where
  "download_pdf_outcome e w info =
     (case base_filename e info of
        None \<Rightarrow> (Download_error, w)
      | Some base \<Rightarrow>
          (case claim w base of
             (filename, present, w1) \<Rightarrow>
               if present then (Skipped_existing, w1)
               else transfer w1 (url info) filename (http_get e (url info)) (can_write e filename)))"

definition download_pdf :: "env \<Rightarrow> world \<Rightarrow> pdf_info \<Rightarrow> bool \<times> world" where
  "download_pdf e w info = (case download_pdf_outcome e w info of (out, w') \<Rightarrow> (success out, w'))"

subsection \<open>\<open>get_pdf_links_from_page\<close>\<close>

text \<open>
  A Python dict keeps its keys in the order of their first insertion; assigning to a
  key that is present replaces the value in place.
\<close>

fun dict_set :: "('k \<times> 'v) list \<Rightarrow> 'k \<Rightarrow> 'v \<Rightarrow> ('k \<times> 'v) list" where
  "dict_set [] k v = [(k, v)]"
| "dict_set ((k', v') # d) k v = (if k' = k then (k, v) # d else (k', v') # dict_set d k v)"

definition dict_get :: "('k \<times> 'v) list \<Rightarrow> 'k \<Rightarrow> 'v \<Rightarrow> 'v" where
  "dict_get d k dflt = (case map_of d k of Some v \<Rightarrow> v | None \<Rightarrow> dflt)"



subsection \<open>Concurrent calls of \<open>download_pdf\<close>\<close>

text \<open>
  The calls of one run share one world. A call waits to enter the locked block, is in
  flight once it has claimed a name, and has returned with its result and the name it
  chose (if it got that far). A step of the system is a step of one call: the locked
  block as a whole, or the rest of the function, which touches the shared state once
  (the write of the file or the discard of the name). The response and the success of
  the write are arbitrary at each step.
\<close>

datatype call = Waiting pdf_info | In_flight pdf_info string | Returned bool "string option"

record system =
  shared :: world
  calls :: "call list"

inductive step :: "env \<Rightarrow> system \<Rightarrow> system \<Rightarrow> bool" for e :: env where
  no_name:
    "t < length (calls s) \<Longrightarrow> calls s ! t = Waiting info \<Longrightarrow> base_filename e info = None \<Longrightarrow>
     step e s (s\<lparr>calls := (calls s)[t := Returned False None]\<rparr>)"
| claimed:
    "t < length (calls s) \<Longrightarrow> calls s ! t = Waiting info \<Longrightarrow> base_filename e info = Some base \<Longrightarrow>
     claim (shared s) base = (filename, present, w') \<Longrightarrow>
     step e s \<lparr>shared = w',
               calls = (calls s)[t := (if present then Returned True (Some filename)
                                       else In_flight info filename)]\<rparr>"
| finished:
    "t < length (calls s) \<Longrightarrow> calls s ! t = In_flight info filename \<Longrightarrow>
     transfer (shared s) (url info) filename r writable = (out, w') \<Longrightarrow>
     step e s \<lparr>shared = w', calls = (calls s)[t := Returned (success out) (Some filename)]\<rparr>"

inductive run :: "env \<Rightarrow> system \<Rightarrow> system \<Rightarrow> bool" for e :: env where
  start: "run e s s"
| next_step: "run e s s' \<Longrightarrow> step e s' s'' \<Longrightarrow> run e s s''"

text \<open>A run starts with a fresh downloader: no name claimed, every call waiting.\<close>

fun waiting :: "call \<Rightarrow> bool" where
  "waiting (Waiting info) = True"
| "waiting (In_flight info name) = False"
| "waiting (Returned b name) = False"

definition initial :: "system \<Rightarrow> bool" where
  "initial s = (downloaded_files (shared s) = {||} \<and> list_all waiting (calls s))"

text \<open>
  The name a call holds: the one it has claimed while in flight, the one it committed
  once it has returned \<open>True\<close>. The invariant of a run: every name held is in the
  set of claimed names, no two calls hold the same name, and the file of every call
  that returned \<open>True\<close> is in the folder.
\<close>

fun holds :: "call \<Rightarrow> string option" where
  "holds (Waiting info) = None"
| "holds (In_flight info name) = Some name"
| "holds (Returned b name) = (if b then name else None)"

definition held_registered :: "system \<Rightarrow> bool" where
  "held_registered s =
     (\<forall>t n. t < length (calls s) \<longrightarrow> holds (calls s ! t) = Some n
        \<longrightarrow> n |\<in>| downloaded_files (shared s))"

definition held_once :: "system \<Rightarrow> bool" where
  "held_once s =
     (\<forall>t u n. t < length (calls s) \<longrightarrow> u < length (calls s) \<longrightarrow> t \<noteq> u
        \<longrightarrow> holds (calls s ! t) = Some n \<longrightarrow> holds (calls s ! u) \<noteq> Some n)"

definition committed_on_disk :: "system \<Rightarrow> bool" where
  "committed_on_disk s =
     (\<forall>t n. t < length (calls s) \<longrightarrow> calls s ! t = Returned True (Some n)
        \<longrightarrow> n \<in> dom (folder (shared s)))"

section \<open>The job pipeline of \<open>app.py\<close>\<close>

subsection \<open>Job entries, documents and the application state\<close>

text \<open>
  An entry of \<open>jobs_status\<close>, with the keys \<open>status\<close>, \<open>progress\<close>, \<open>message\<close> and
  the three counters. The other keys (the job's id, URL, department, name and creation
  time, the selected fields and the paths of the result files) play no part in what
  follows and are left out. The status strings "pending", "downloading", "processing",
  "completed" and "error" are the constructors of \<open>status\<close>.
\<close>

datatype status = Pending | Downloading | Processing | Completed | Error

record job =
  status :: status
  progress :: nat
  message :: string
  files_found :: "nat option"
  files_downloaded :: "nat option"
  files_processed :: "nat option"

text \<open>
  A reading material is a JSON object with string values, or a bare string. A metadata
  value is a string or a list of reading materials. Dicts are association lists in
  insertion order.
\<close>

datatype material = Item "(string \<times> string) list" | Plain string

datatype field_value = Text string | Materials "material list"

type_synonym metadata = "(string \<times> field_value) list"

record document =
  filename :: string
  metadata :: metadata

text \<open>A call into a collaborator raises (with the text of the exception) or returns.\<close>

datatype 'a attempt = Raises string | Returns 'a

text \<open>
  The four functions \<open>get_extraction_functions\<close> returns. Text and tables are
  extracted from a file, given by its name; the two metadata extractors read the text.
\<close>

record extractors =
  extract_text_func :: "string \<Rightarrow> string attempt"
  extract_tables_func :: "string \<Rightarrow> string list attempt"
  llm_extract_func :: "string \<Rightarrow> metadata attempt"
  heuristic_func :: "string \<Rightarrow> metadata attempt"

text \<open>
  The content of \<open>RESULTS_DIR/<job>_metadata.json\<close>, the background tasks a request
  schedules, and what a request handler answers: an \<open>HTTPException\<close> with its status
  code, or a body with its \<open>status\<close> field.
\<close>

datatype stored = Invalid_json | Documents "document list"

datatype task = Extract_task string "string list" | Primo_task string

datatype response = Rejected nat | Answer string

text \<open>
  \<open>job_folders\<close> gives the names of the files in \<open>DOWNLOADS_DIR/<job>\<close>, \<open>None\<close>
  when the folder does not exist.
\<close>

record app =
  jobs_status :: "string \<rightharpoonup> job"
  job_folders :: "string \<rightharpoonup> string list"
  metadata_results :: "string \<rightharpoonup> stored"
  background_tasks :: "task list"

text \<open>
  A stage writes the job entry in groups of assignments. \<open>put f trace\<close> appends the
  entry after one group to the entries seen so far; the last entry of a trace is the
  current one.
\<close>

definition put :: "(job \<Rightarrow> job) \<Rightarrow> job list \<Rightarrow> job list" where
  "put f trace = trace @ [f (last trace)]"

text \<open>The text \<open>(i+1/n)\<close> of the progress messages.\<close>

definition of_total :: "nat \<Rightarrow> nat \<Rightarrow> string" where
  "of_total i n = '' ('' @ str_nat (i + 1) @ ''/'' @ str_nat n @ '')''"

subsection \<open>Acquisition: \<open>discover_and_download_pdfs\<close>\<close>







subsection \<open>Extraction: \<open>extract_metadata\<close> and \<open>extract_metadata_background\<close>\<close>

text \<open>Lines 355 to 374, the request handler.\<close>

definition extract_metadata :: "app \<Rightarrow> string \<Rightarrow> string list \<Rightarrow> response \<times> app" where
  "extract_metadata a job_id selected =
     (case jobs_status a job_id of
        None \<Rightarrow> (Rejected 404, a)
      | Some j \<Rightarrow>
          (case job_folders a job_id of
             None \<Rightarrow> (Rejected 404, a)
           | Some _ \<Rightarrow>
               (Answer ''started'',
                a\<lparr>jobs_status := (jobs_status a)(job_id \<mapsto>
                     j\<lparr>status := Processing, progress := 0,
                       message := ''Starting metadata extraction...''\<rparr>),
                  background_tasks := background_tasks a @ [Extract_task job_id selected]\<rparr>)))"

text \<open>Lines 436 to 438: the record of a document neither extractor could read.\<close>

definition unknown_metadata :: "string list \<Rightarrow> metadata" where
  "unknown_metadata selected = fold (\<lambda>field m. dict_set m field (Text ''Unknown'')) selected []"

text \<open>
  Lines 421 to 438: the primary extractor, then the heuristic one, then the record of
  unknowns. The flag tells whether the fallback message was written. Both functions
  of \<open>get_extraction_functions\<close> are function objects, so the test
  \<open>if llm_extract_func\<close> always succeeds; an extractor that returns, returns a dict.
\<close>

definition try_extractors :: "extractors \<Rightarrow> string \<Rightarrow> string list \<Rightarrow> metadata \<times> bool" where
  "try_extractors x text selected =
     (case llm_extract_func x text of
        Returns m \<Rightarrow> (m, False)
      | Raises _ \<Rightarrow>
          (case heuristic_func x text of
             Returns m \<Rightarrow> (m, True)
           | Raises _ \<Rightarrow> (unknown_metadata selected, True)))"

text \<open>Lines 440 to 446.\<close>

definition filter_fields :: "string list \<Rightarrow> metadata \<Rightarrow> metadata" where
  "filter_fields selected m =
     fold (\<lambda>field filtered. dict_set filtered field
             (case map_of m field of Some v \<Rightarrow> v | None \<Rightarrow> Text ''Unknown'')) selected []"

text \<open>Lines 406 to 414: the text with the tables appended, when there are any.\<close>

definition enhanced_text :: "extractors \<Rightarrow> string \<Rightarrow> string \<Rightarrow> string" where
  "enhanced_text x pdf text =
     (case extract_tables_func x pdf of
        Returns table_markdowns \<Rightarrow>
          if table_markdowns \<noteq> []
          then text @ [CHR 0x0A, CHR 0x0A] @ ''# TABLES (markdown format)'' @ [CHR 0x0A]
                 @ join [CHR 0x0A, CHR 0x0A] table_markdowns
          else text
      | Raises _ \<Rightarrow> text)"

text \<open>
  Lines 393 to 466, the body of the loop for the file \<open>pdf\<close> at index \<open>i\<close> of \<open>n\<close>.
  The source computes the progress values in floating point, as \<open>int((i / n) * 90)\<close>;
  here they are the floor of the exact quotient, which is the same number whenever the
  floating-point quotient is exact, as it is at \<open>i = 0\<close> and at \<open>i = n\<close>.
\<close>

definition process_pdf ::
  "extractors \<Rightarrow> string list \<Rightarrow> nat \<Rightarrow> nat \<Rightarrow> string \<Rightarrow> job list \<times> document list
     \<Rightarrow> job list \<times> document list" where
  "process_pdf x selected n i pdf st =
     (case st of (trace, results) \<Rightarrow>
        let trace1 = put (\<lambda>j. j\<lparr>progress := i * 90 div n,
                               message := ''Processing '' @ pdf @ of_total i n @ '' - Extracting text...'',
                               files_processed := Some i\<rparr>) trace
        in case extract_text_func x pdf of
             Raises _ \<Rightarrow>
               (put (\<lambda>j. j\<lparr>progress := (i + 1) * 90 div n,
                            message := ''Error processing '' @ pdf @ of_total i n @ '' - Continuing...'',
                            files_processed := Some (i + 1)\<rparr>) trace1,
                results)
           | Returns text \<Rightarrow>
               if text = [] then (trace1, results)
               else
                 let trace2 = put (\<lambda>j. j\<lparr>progress := i * 90 div n + 5,
                                        message := ''Processing '' @ pdf @ of_total i n
                                                     @ '' - Extracting metadata with AI...''\<rparr>) trace1;
                     tried = try_extractors x (enhanced_text x pdf text) selected;
                     trace3 = (if snd tried
                               then put (\<lambda>j. j\<lparr>message := ''Processing '' @ pdf @ of_total i n
                                                            @ '' - Using fallback extraction...''\<rparr>) trace2
                               else trace2)
                 in (put (\<lambda>j. j\<lparr>progress := (i + 1) * 90 div n,
                                 message := ''Completed '' @ pdf @ of_total i n @ '' - Moving to next file...'',
                                 files_processed := Some (i + 1)\<rparr>) trace3,
                     results @ [\<lparr>filename = pdf, metadata = filter_fields selected (fst tried)\<rparr>]))"

fun extract_loop ::
  "extractors \<Rightarrow> string list \<Rightarrow> nat \<Rightarrow> nat \<Rightarrow> string list \<Rightarrow> job list \<times> document list
     \<Rightarrow> job list \<times> document list" where
  "extract_loop x selected n i [] st = st"
| "extract_loop x selected n i (pdf # rest) st =
     extract_loop x selected n (i + 1) rest (process_pdf x selected n i pdf st)"

text \<open>
  Lines 376 to 481 on the job entry \<open>job0\<close> the task finds. \<open>pdf_files\<close> is the result
  of the glob; \<open>save_error\<close> is the text of the exception that writing the results file
  raises, \<open>None\<close> when it succeeds. The result is the trace of the entry and the
  documents saved.
\<close>

definition extract_metadata_background ::
  "extractors \<Rightarrow> string list \<Rightarrow> string option \<Rightarrow> string list \<Rightarrow> job
     \<Rightarrow> job list \<times> document list option" where
  "extract_metadata_background x pdf_files save_error selected job0 =
     (if pdf_files = []
      then (put (\<lambda>j. j\<lparr>status := Error, message := ''No PDF files found''\<rparr>) [job0], None)
      else
        (case extract_loop x selected (length pdf_files) 0 pdf_files ([job0], []) of
           (trace, results) \<Rightarrow>
             (case save_error of
                Some err \<Rightarrow> (put (\<lambda>j. j\<lparr>status := Error, message := ''Error: '' @ err\<rparr>) trace, None)
              | None \<Rightarrow>
                  (put (\<lambda>j. j\<lparr>status := Completed, progress := 100,
                               message := ''Metadata extraction complete! Processed ''
                                            @ str_nat (length results) @ '' files'',
                               files_processed := Some (length results)\<rparr>) trace,
                   Some results))))"

text \<open>The files \<open>job_folder.glob("*.pdf")\<close> gives.\<close>

definition pdf_files_of :: "app \<Rightarrow> string \<Rightarrow> string list" where
  "pdf_files_of a job_id =
     (case job_folders a job_id of None \<Rightarrow> [] | Some names \<Rightarrow> filter (\<lambda>f. endswith f ''.pdf'') names)"

text \<open>The effect of the scheduled extraction task on the application state.\<close>

definition run_extract_task :: "extractors \<Rightarrow> string option \<Rightarrow> app \<Rightarrow> string \<Rightarrow> string list \<Rightarrow> app" where
  "run_extract_task x save_error a job_id selected =
     (case jobs_status a job_id of
        None \<Rightarrow> a
      | Some job0 \<Rightarrow>
          (case extract_metadata_background x (pdf_files_of a job_id) save_error selected job0 of
             (trace, saved) \<Rightarrow>
               a\<lparr>jobs_status := (jobs_status a)(job_id \<mapsto> last trace),
                 metadata_results :=
                   (case saved of
                      None \<Rightarrow> metadata_results a
                    | Some docs \<Rightarrow> (metadata_results a)(job_id \<mapsto> Documents docs))\<rparr>))"

subsection \<open>Cross-reference: \<open>check_primo_resources\<close> and \<open>check_primo_background\<close>\<close>

text \<open>Lines 507 to 512, the test for a run in flight.\<close>

definition already_running :: "job \<Rightarrow> bool" where
  "already_running j =
     (status j = Processing
      \<and> (str_in ''Primo'' (message j) \<or> str_in ''library'' (lower (message j))))"

text \<open>
  Lines 501 to 532, the request handler. The \<open>HTTPException\<close> for an empty result
  list is raised inside the \<open>try\<close> and leaves the handler as status 500.
\<close>

definition check_primo_resources :: "app \<Rightarrow> string \<Rightarrow> response \<times> app" where
  "check_primo_resources a job_id =
     (case jobs_status a job_id of
        None \<Rightarrow> (Rejected 404, a)
      | Some j \<Rightarrow>
          if already_running j then (Answer ''already_running'', a)
          else
            (case metadata_results a job_id of
               None \<Rightarrow> (Rejected 404, a)
             | Some Invalid_json \<Rightarrow> (Rejected 400, a)
             | Some (Documents results) \<Rightarrow>
                 if results = [] then (Rejected 500, a)
                 else (Answer ''started'',
                       a\<lparr>background_tasks := background_tasks a @ [Primo_task job_id]\<rparr>)))"

text \<open>
  The value of \<open>metadata.get('reading_materials', [])\<close> as the sequence a loop over it
  visits: the items of a list, the characters of a string.
\<close>

definition reading_materials_of :: "metadata \<Rightarrow> material list" where
  "reading_materials_of m =
     (case map_of m ''reading_materials'' of
        None \<Rightarrow> []
      | Some (Materials items) \<Rightarrow> items
      | Some (Text t) \<Rightarrow> map (\<lambda>c. Plain [c]) t)"

text \<open>
  Lines 560 to 599, the loop over the stored documents. \<open>lookup\<close> stands for
  \<open>check_metadata_availability\<close>: it raises, or tells whether the result has library
  matches. The call is awaited, so the entry written at the head of the iteration is
  the one other requests see while the lookup runs. The loop state is the trace,
  \<open>processed_files\<close> and \<open>successful_matches\<close>.
\<close>

fun primo_loop ::
  "(metadata \<Rightarrow> bool attempt) \<Rightarrow> nat \<Rightarrow> nat \<Rightarrow> document list \<Rightarrow> job list \<times> nat \<times> nat
     \<Rightarrow> job list \<times> nat \<times> nat" where
  "primo_loop lookup total_files i [] st = st"
| "primo_loop lookup total_files i (result # rest) (trace, processed_files, successful_matches) =
     (let trace1 = put (\<lambda>j. j\<lparr>progress := i * 90 div total_files,
                               message := ''Checking resources for '' @ filename result
                                            @ of_total i total_files\<rparr>) trace
      in if reading_materials_of (metadata result) = []
         then primo_loop lookup total_files (i + 1) rest (trace1, processed_files, successful_matches)
         else
           (case lookup (metadata result) of
              Returns True \<Rightarrow>
                primo_loop lookup total_files (i + 1) rest (trace1, processed_files + 1, successful_matches + 1)
            | _ \<Rightarrow>
                primo_loop lookup total_files (i + 1) rest (trace1, processed_files + 1, successful_matches)))"

text \<open>
  Lines 534 to 625 on the job entry \<open>job0\<close> the task finds, given the stored results
  file and \<open>save_error\<close>: the text of the exception that writing the new results file
  raises (one that the last handler catches, such as a full disk), \<open>None\<close> when the
  file is written.
\<close>

definition check_primo_background ::
  "(metadata \<Rightarrow> bool attempt) \<Rightarrow> stored option \<Rightarrow> string option \<Rightarrow> job \<Rightarrow> job list" where
  "check_primo_background lookup file save_error job0 =
     (case file of
        None \<Rightarrow> put (\<lambda>j. j\<lparr>status := Error, message := ''Metadata results file not found''\<rparr>) [job0]
      | Some Invalid_json \<Rightarrow>
          put (\<lambda>j. j\<lparr>status := Error,
                       message := ''Invalid results file format. Please re-run metadata extraction.''\<rparr>) [job0]
      | Some (Documents results) \<Rightarrow>
          if results = []
          then put (\<lambda>j. j\<lparr>status := Error, message := ''No results found to process''\<rparr>) [job0]
          else
            (case primo_loop lookup (length results) 0 results
                    (put (\<lambda>j. j\<lparr>status := Processing, progress := 0,
                                  message := ''Starting library resource matching via Primo API...''\<rparr>) [job0],
                     0, 0) of
               (trace, processed_files, successful_matches) \<Rightarrow>
                 let trace1 = put (\<lambda>j. j\<lparr>progress := 95,
                                          message := ''Saving library matching results...''\<rparr>) trace
                 in (case save_error of
                       Some err \<Rightarrow>
                         put (\<lambda>j. j\<lparr>status := Error,
                                      message := ''Library matching failed: '' @ err\<rparr>) trace1
                     | None \<Rightarrow>
                         put (\<lambda>j. j\<lparr>status := Completed, progress := 100,
                                      message := ''Library matching complete! Found matches for ''
                                                   @ str_nat successful_matches @ ''/''
                                                   @ str_nat processed_files @ '' syllabi''\<rparr>) trace1)))"

subsection \<open>The reading-material columns of \<open>generate_csv_from_results\<close>\<close>

text \<open>Lines 743 to 754: the rendering of one item that is a dict.\<close>

definition material_str :: "(string \<times> string) list \<Rightarrow> string" where
  "material_str item =
     (let title_text = dict_get item ''title'' ''Unknown Title'';
          author = (let creator = dict_get item ''creator'' [] in
                    if creator \<noteq> [] then creator else dict_get item ''author'' []);
          material_type = dict_get item ''type'' ''book'';
          link = dict_get item ''url'' [];
          s1 = (if author \<noteq> [] then title_text @ '' by '' @ author else title_text);
          s2 = s1 @ '' ('' @ material_type @ '')''
      in if link \<noteq> [] \<and> lower link \<notin> set [''unknown'', ''none'', []]
         then s2 @ '' [URL: '' @ link @ '']'' else s2)"

text \<open>
  Lines 741 to 764: the loop over the items, with the lists \<open>required_materials\<close>,
  \<open>optional_materials\<close> and \<open>all_materials\<close>.
\<close>

fun sort_materials ::
  "material list \<Rightarrow> string list \<times> string list \<times> string list \<Rightarrow> string list \<times> string list \<times> string list" where
  "sort_materials [] acc = acc"
| "sort_materials (Item item # rest) (required, optional, everything) =
     (if dict_get item ''requirement'' ''optional'' = ''required''
      then sort_materials rest (required @ [material_str item], optional, everything @ [material_str item])
      else sort_materials rest (required, optional @ [material_str item], everything @ [material_str item]))"
| "sort_materials (Plain s # rest) (required, optional, everything) =
     sort_materials rest (required, optional @ [s], everything @ [s])"

record materials_columns =
  reading_materials_count :: nat
  required_materials :: string
  optional_materials :: string
  reading_materials_list :: string

text \<open>Lines 734 to 774.\<close>

definition reading_materials_columns :: "document \<Rightarrow> materials_columns" where
  "reading_materials_columns result =
     (let reading_materials = reading_materials_of (metadata result)
      in if reading_materials \<noteq> []
         then (case sort_materials reading_materials ([], [], []) of
                 (required, optional, everything) \<Rightarrow>
                   \<lparr>reading_materials_count = length reading_materials,
                    required_materials = join ''; '' required,
                    optional_materials = join ''; '' optional,
                    reading_materials_list = join ''; '' everything\<rparr>)
         else \<lparr>reading_materials_count = 0, required_materials = [],
               optional_materials = [], reading_materials_list = []\<rparr>)"

section \<open>Concrete inputs\<close>

text \<open>
  A reference whose title is too short to name the file and whose URL does not end in
  a PDF name, so that its base filename is the generic one; a server that answers with
  a small PDF, and one that answers with a short HTML page.
\<close>

definition example_info :: pdf_info where
  "example_info = \<lparr>url = ''u'', title = ''t''\<rparr>"

definition example_env :: env where
  "example_env = \<lparr>url_filename = (\<lambda>u. Some ''syllabus''),
                   http_get = (\<lambda>u. Response ''application/pdf'' [37, 80, 68, 70]),
                   can_write = (\<lambda>f. True)\<rparr>"

definition html_env :: env where
  "html_env = \<lparr>url_filename = (\<lambda>u. Some ''syllabus''),
                http_get = (\<lambda>u. Response ''text/html'' [60, 104, 62]),
                can_write = (\<lambda>f. True)\<rparr>"

text \<open>The worlds of a run of two calls for that reference, and a folder that has the file.\<close>

definition world1 :: world where
  "world1 = \<lparr>downloaded_files = {||}, folder = Map.empty, requests = []\<rparr>"

definition world2 :: world where
  "world2 = \<lparr>downloaded_files = {|''polisci_syllabus.pdf''|}, folder = Map.empty, requests = []\<rparr>"

definition world3 :: world where
  "world3 = \<lparr>downloaded_files = {|''polisci_syllabus_1.pdf'', ''polisci_syllabus.pdf''|},
              folder = Map.empty, requests = []\<rparr>"

definition world4 :: world where
  "world4 = \<lparr>downloaded_files = {|''polisci_syllabus_1.pdf'', ''polisci_syllabus.pdf''|},
              folder = [''polisci_syllabus.pdf'' \<mapsto> [37, 80, 68, 70]], requests = [''u'']\<rparr>"

definition world5 :: world where
  "world5 = \<lparr>downloaded_files = {|''polisci_syllabus_1.pdf'', ''polisci_syllabus.pdf''|},
              folder = [''polisci_syllabus.pdf'' \<mapsto> [37, 80, 68, 70],
                        ''polisci_syllabus_1.pdf'' \<mapsto> [37, 80, 68, 70]],
              requests = [''u'', ''u'']\<rparr>"

definition world_with_file :: world where
  "world_with_file = \<lparr>downloaded_files = {||},
                       folder = [''polisci_syllabus.pdf'' \<mapsto> [37, 80, 68, 70]], requests = []\<rparr>"

definition two_calls :: system where
  "two_calls = \<lparr>shared = world1, calls = [Waiting example_info, Waiting example_info]\<rparr>"

definition two_files :: system where
  "two_files = \<lparr>shared = world5, calls = [Returned True (Some ''polisci_syllabus.pdf''),
                                           Returned True (Some ''polisci_syllabus_1.pdf'')]\<rparr>"

text \<open>
  Job entries: after an acquisition in which every transfer failed, after an
  acquisition of one file, after the extraction request for it, after its extraction,
  and while the cross-reference task waits for the lookup of that file.
\<close>

definition job_done :: job where
  "job_done = \<lparr>status = Completed, progress = 100, message = ''Arts download complete! 0/5 files downloaded'',
                files_found = Some 5, files_downloaded = Some 0, files_processed = None\<rparr>"

definition job_acquired :: job where
  "job_acquired = \<lparr>status = Completed, progress = 100,
                    message = ''Political Science download complete! 1/1 files downloaded'',
                    files_found = Some 1, files_downloaded = Some 1, files_processed = None\<rparr>"

definition job_started :: job where
  "job_started = job_acquired\<lparr>status := Processing, progress := 0,
                    message := ''Starting metadata extraction...''\<rparr>"

definition job_extracted :: job where
  "job_extracted = \<lparr>status = Completed, progress = 100,
                     message = ''Metadata extraction complete! Processed 1 files'',
                     files_found = Some 1, files_downloaded = Some 1, files_processed = Some 1\<rparr>"

text \<open>The stored result of that extraction, with one required and one optional reading.\<close>

definition stored_documents :: "document list" where
  "stored_documents =
     [\<lparr>filename = ''polisci_syllabus.pdf'',
       metadata = [(''year'', Text ''2025''),
                   (''reading_materials'',
                    Materials [Item [(''title'', ''Leviathan''), (''creator'', ''Hobbes''),
                                     (''requirement'', ''required''), (''type'', ''book'')],
                               Item [(''title'', ''The Prince''), (''requirement'', ''optional'')]])]\<rparr>]"

definition job_checking :: job where
  "job_checking = job_extracted\<lparr>status := Processing, progress := 0,
                     message := ''Checking resources for polisci_syllabus.pdf (1/1)''\<rparr>"

text \<open>
  Application states: no job at all; a job whose folder exists and is empty; a job whose
  cross-reference task is running.
\<close>

definition app_no_job :: app where
  "app_no_job = \<lparr>jobs_status = Map.empty, job_folders = Map.empty,
                  metadata_results = Map.empty, background_tasks = []\<rparr>"

definition app_empty_folder :: app where
  "app_empty_folder = \<lparr>jobs_status = [''j'' \<mapsto> job_done], job_folders = [''j'' \<mapsto> []],
                        metadata_results = Map.empty, background_tasks = []\<rparr>"

definition app_checking :: app where
  "app_checking = \<lparr>jobs_status = [''j'' \<mapsto> job_checking], job_folders = [''j'' \<mapsto> [''polisci_syllabus.pdf'']],
                    metadata_results = [''j'' \<mapsto> Documents stored_documents],
                    background_tasks = [Primo_task ''j'']\<rparr>"

text \<open>
  Extractors: one set whose two metadata extractors both raise, one whose primary extractor
  returns the year only.
\<close>

definition failing_extractors :: extractors where
  "failing_extractors = \<lparr>extract_text_func = (\<lambda>p. Returns ''Syllabus''),
                          extract_tables_func = (\<lambda>p. Returns []),
                          llm_extract_func = (\<lambda>t. Raises ''no API key''),
                          heuristic_func = (\<lambda>t. Raises ''no match'')\<rparr>"

definition working_extractors :: extractors where
  "working_extractors = \<lparr>extract_text_func = (\<lambda>p. Returns ''Syllabus''),
                          extract_tables_func = (\<lambda>p. Returns []),
                          llm_extract_func = (\<lambda>t. Returns [(''year'', Text ''2025'')]),
                          heuristic_func = (\<lambda>t. Raises ''no match'')\<rparr>"

section \<open>Properties of the downloader\<close>

subsection \<open>The claim of a name and the transfer\<close>

lemma unique_filename_fresh: "unique_filename files base name counter |\<notin>| files"
  by (induction files base name counter rule: unique_filename.induct)
     (subst unique_filename.simps, simp)

lemma claim_effect:
  assumes "claim w base = (n, present, w')"
  shows "n |\<notin>| downloaded_files w" "downloaded_files w' = finsert n (downloaded_files w)"
    "folder w' = folder w" "present \<longleftrightarrow> n \<in> dom (folder w)"
  using assms unique_filename_fresh [of "downloaded_files w" base base 1]
  by (auto simp: claim_def Let_def)

lemma transfer_effect:
  assumes "transfer w u n r writable = (out, w')"
  shows "success out \<Longrightarrow> downloaded_files w' = downloaded_files w"
    "success out \<Longrightarrow> n \<in> dom (folder w')"
    "\<not> success out \<Longrightarrow> downloaded_files w' = downloaded_files w |-| {|n|}"
    "dom (folder w) \<subseteq> dom (folder w')"
  using assms
  by (auto simp: transfer_def discard_def success_def Let_def split: http_result.splits if_splits)

lemma waiting_holds: "waiting c \<Longrightarrow> holds c = None"
  by (cases c) simp_all

lemma waiting_not_returned: "waiting c \<Longrightarrow> c \<noteq> Returned b r"
  by (cases c) simp_all

lemma initial_inv:
  assumes "initial s"
  shows "held_registered s" "held_once s" "committed_on_disk s"
proof -
  have w: "waiting (calls s ! t)" if "t < length (calls s)" for t
    using assms that by (simp add: initial_def list_all_length)
  have none: "holds (calls s ! t) = None" if "t < length (calls s)" for t
    using w [OF that] by (rule waiting_holds)
  show "held_registered s" by (simp add: held_registered_def none)
  show "held_once s" by (simp add: held_once_def none)
  show "committed_on_disk s"
    unfolding committed_on_disk_def using w waiting_not_returned by blast
qed

lemma step_held_registered:
  assumes st: "step e s s'" and r: "held_registered s" and o: "held_once s"
  shows "held_registered s'"
  using st
proof (cases rule: step.cases)
  case (no_name t info)
  show ?thesis
    unfolding held_registered_def
  proof (intro allI impI)
    fix u n assume u: "u < length (calls s')" and h: "holds (calls s' ! u) = Some n"
    from u no_name have u': "u < length (calls s)" by simp
    have "u \<noteq> t" using h no_name u' by (auto simp: nth_list_update)
    with h no_name u' have "holds (calls s ! u) = Some n" by (simp add: nth_list_update)
    with r u' have "n |\<in>| downloaded_files (shared s)" unfolding held_registered_def by blast
    with no_name show "n |\<in>| downloaded_files (shared s')" by simp
  qed
next
  case (claimed t info base name present w')
  note c = claim_effect [OF claimed(5)]
  show ?thesis
    unfolding held_registered_def
  proof (intro allI impI)
    fix u n assume u: "u < length (calls s')" and h: "holds (calls s' ! u) = Some n"
    from u claimed have u': "u < length (calls s)" by simp
    show "n |\<in>| downloaded_files (shared s')"
    proof (cases "u = t")
      case True
      with h claimed u' have "n = name" by (simp split: if_splits)
      with c(2) claimed show ?thesis by simp
    next
      case False
      with h claimed u' have "holds (calls s ! u) = Some n" by (simp add: nth_list_update)
      with r u' have "n |\<in>| downloaded_files (shared s)" unfolding held_registered_def by blast
      with c(2) claimed show ?thesis by simp
    qed
  qed
next
  case (finished t info name r' writable out w')
  note f = transfer_effect [OF finished(4)]
  have ht: "holds (calls s ! t) = Some name" using finished by simp
  show ?thesis
    unfolding held_registered_def
  proof (intro allI impI)
    fix u n assume u: "u < length (calls s')" and h: "holds (calls s' ! u) = Some n"
    from u finished have u': "u < length (calls s)" by simp
    show "n |\<in>| downloaded_files (shared s')"
    proof (cases "u = t")
      case True
      with h finished u' have so: "success out" and "n = name" by (simp_all split: if_splits)
      moreover from r ht finished(2) have "name |\<in>| downloaded_files (shared s)"
        unfolding held_registered_def by blast
      ultimately show ?thesis using f(1) finished by simp
    next
      case False
      with h finished u' have hu: "holds (calls s ! u) = Some n" by (simp add: nth_list_update)
      with r u' have reg: "n |\<in>| downloaded_files (shared s)" unfolding held_registered_def by blast
      from o ht hu False u' finished(2) have "n \<noteq> name" unfolding held_once_def by blast
      with reg f(1,3) finished show ?thesis by (cases "success out") simp_all
    qed
  qed
qed


lemma step_held_once:
  assumes st: "step e s s'" and r: "held_registered s" and o: "held_once s"
  shows "held_once s'"
  using st
proof (cases rule: step.cases)
  case (no_name t info)
  have sub: "holds (calls s ! u) = Some n"
    if "u < length (calls s)" "holds (calls s' ! u) = Some n" for u n
    using that no_name by (cases "u = t") (simp_all add: nth_list_update)
  from no_name have len: "length (calls s') = length (calls s)" by simp
  show ?thesis
    unfolding held_once_def len using o sub unfolding held_once_def by blast
next
  case (claimed t info base name present w')
  note c = claim_effect [OF claimed(5)]
  from claimed have len: "length (calls s') = length (calls s)" by simp
  have old: "holds (calls s ! u) \<noteq> Some name" if "u < length (calls s)" for u
    using r that c(1) unfolding held_registered_def by blast
  have new: "holds (calls s' ! t) = Some n \<Longrightarrow> n = name" for n
    using claimed by (simp split: if_splits)
  have same: "holds (calls s' ! u) = holds (calls s ! u)" if "u < length (calls s)" "u \<noteq> t" for u
    using that claimed by (simp add: nth_list_update)
  show ?thesis
    unfolding held_once_def len
  proof (intro allI impI)
    fix u v n
    assume u: "u < length (calls s)" and v: "v < length (calls s)" and ne: "u \<noteq> v"
      and hu: "holds (calls s' ! u) = Some n"
    show "holds (calls s' ! v) \<noteq> Some n"
    proof (cases "u = t")
      case True
      with hu new have "n = name" by blast
      moreover from True ne v have "holds (calls s' ! v) = holds (calls s ! v)" by (simp add: same)
      ultimately show ?thesis using old [OF v] by simp
    next
      case False
      with hu u have hu': "holds (calls s ! u) = Some n" by (simp add: same)
      show ?thesis
      proof (cases "v = t")
        case True
        show ?thesis
        proof
          assume "holds (calls s' ! v) = Some n"
          with True new have "n = name" by blast
          with hu' old [OF u] show False by simp
        qed
      next
        case False
        with v have "holds (calls s' ! v) = holds (calls s ! v)" by (simp add: same)
        with o u v ne hu' show ?thesis unfolding held_once_def by simp
      qed
    qed
  qed
next
  case (finished t info name r' writable out w')
  from finished have len: "length (calls s') = length (calls s)" by simp
  have ht: "holds (calls s ! t) = Some name" using finished by simp
  have sub: "holds (calls s ! u) = Some n"
    if "u < length (calls s)" "holds (calls s' ! u) = Some n" for u n
    using that finished ht by (cases "u = t") (simp_all add: nth_list_update split: if_splits)
  show ?thesis
    unfolding held_once_def len using o sub unfolding held_once_def by blast
qed

lemma step_committed_on_disk:
  assumes st: "step e s s'" and d: "committed_on_disk s"
  shows "committed_on_disk s'"
  using st
proof (cases rule: step.cases)
  case (no_name t info)
  have sub: "calls s ! u = Returned True (Some n)"
    if "u < length (calls s)" "calls s' ! u = Returned True (Some n)" for u n
    using that no_name by (cases "u = t") (simp_all add: nth_list_update)
  from no_name have "length (calls s') = length (calls s)" "shared s' = shared s" by simp_all
  then show ?thesis using d sub unfolding committed_on_disk_def by metis
next
  case (claimed t info base name present w')
  note c = claim_effect [OF claimed(5)]
  show ?thesis
    unfolding committed_on_disk_def
  proof (intro allI impI)
    fix u n assume u: "u < length (calls s')" and h: "calls s' ! u = Returned True (Some n)"
    from u claimed have u': "u < length (calls s)" by simp
    show "n \<in> dom (folder (shared s'))"
    proof (cases "u = t")
      case True
      with h claimed u' have "present" "n = name" by (simp_all split: if_splits)
      with c(3,4) claimed show ?thesis by simp
    next
      case False
      with h claimed u' have "calls s ! u = Returned True (Some n)" by (simp add: nth_list_update)
      with d u' have "n \<in> dom (folder (shared s))" unfolding committed_on_disk_def by blast
      with c(3) claimed show ?thesis by simp
    qed
  qed
next
  case (finished t info name r' writable out w')
  note f = transfer_effect [OF finished(4)]
  show ?thesis
    unfolding committed_on_disk_def
  proof (intro allI impI)
    fix u n assume u: "u < length (calls s')" and h: "calls s' ! u = Returned True (Some n)"
    from u finished have u': "u < length (calls s)" by simp
    show "n \<in> dom (folder (shared s'))"
    proof (cases "u = t")
      case True
      with h finished u' have "success out" "n = name" by simp_all
      with f(2) finished show ?thesis by simp
    next
      case False
      with h finished u' have "calls s ! u = Returned True (Some n)" by (simp add: nth_list_update)
      with d u' have "n \<in> dom (folder (shared s))" unfolding committed_on_disk_def by blast
      with f(4) finished show ?thesis by auto
    qed
  qed
qed

lemma run_inv:
  assumes "run e s0 s" and "held_registered s0" and "held_once s0" and "committed_on_disk s0"
  shows "held_registered s \<and> held_once s \<and> committed_on_disk s"
  using assms
  by (induction rule: run.induct)
     (auto intro: step_held_registered step_held_once step_committed_on_disk)


subsection \<open>A run of two calls for the same reference\<close>

lemma example_base: "base_filename example_env example_info = Some ''polisci_syllabus.pdf''"
  by (simp add: base_filename_def example_env_def example_info_def endswith_def startswith_def
        lower_def lower_char_def)

lemma suffixed1: "suffixed ''polisci_syllabus.pdf'' (Suc 0) = ''polisci_syllabus_1.pdf''"
  by code_simp


lemma unique1: "unique_filename {||} ''polisci_syllabus.pdf'' ''polisci_syllabus.pdf'' (Suc 0) = ''polisci_syllabus.pdf''"
  by (subst unique_filename.simps) simp

lemma unique2:
  "unique_filename {|''polisci_syllabus.pdf''|} ''polisci_syllabus.pdf'' ''polisci_syllabus.pdf'' (Suc 0)
     = ''polisci_syllabus_1.pdf''"
  apply (subst unique_filename.simps)
  apply (simp add: suffixed1)
  apply (subst unique_filename.simps)
  apply simp
  done

lemma claim1: "claim world1 ''polisci_syllabus.pdf'' = (''polisci_syllabus.pdf'', False, world2)"
  by (simp add: claim_def world1_def world2_def unique1 Let_def)

lemma claim2: "claim world2 ''polisci_syllabus.pdf'' = (''polisci_syllabus_1.pdf'', False, world3)"
  by (simp add: claim_def world2_def world3_def unique2 Let_def)



lemma pdf_type: "str_in ''application/pdf'' (lower ''application/pdf'')"
  by (simp add: lower_def lower_char_def startswith_def)

lemma transfer1:
  "transfer world3 (url example_info) ''polisci_syllabus.pdf'' (Response ''application/pdf'' [37, 80, 68, 70]) True
     = (Downloaded, world4)"
  by (simp add: transfer_def pdf_type world3_def world4_def example_info_def Let_def)

lemma transfer2:
  "transfer world4 (url example_info) ''polisci_syllabus_1.pdf'' (Response ''application/pdf'' [37, 80, 68, 70]) True
     = (Downloaded, world5)"
  by (simp add: transfer_def pdf_type world4_def world5_def example_info_def Let_def)


lemma step1:
  "step example_env two_calls
     \<lparr>shared = world2, calls = [In_flight example_info ''polisci_syllabus.pdf'', Waiting example_info]\<rparr>"
proof -
  have c: "claim (shared two_calls) ''polisci_syllabus.pdf'' = (''polisci_syllabus.pdf'', False, world2)"
    by (simp add: two_calls_def claim1)
  have "step example_env two_calls
          \<lparr>shared = world2,
           calls = (calls two_calls)[0 := (if False then Returned True (Some ''polisci_syllabus.pdf'')
                                           else In_flight example_info ''polisci_syllabus.pdf'')]\<rparr>"
    by (rule step.claimed [OF _ _ example_base c]) (simp_all add: two_calls_def)
  then show ?thesis by (simp add: two_calls_def)
qed


lemma step2:
  "step example_env
     \<lparr>shared = world2, calls = [In_flight example_info ''polisci_syllabus.pdf'', Waiting example_info]\<rparr>
     \<lparr>shared = world3, calls = [In_flight example_info ''polisci_syllabus.pdf'',
                                In_flight example_info ''polisci_syllabus_1.pdf'']\<rparr>"
  (is "step _ ?s ?s'")
proof -
  have c: "claim (shared ?s) ''polisci_syllabus.pdf'' = (''polisci_syllabus_1.pdf'', False, world3)"
    by (simp add: claim2)
  have "step example_env ?s
          \<lparr>shared = world3,
           calls = (calls ?s)[1 := (if False then Returned True (Some ''polisci_syllabus_1.pdf'')
                                    else In_flight example_info ''polisci_syllabus_1.pdf'')]\<rparr>"
    by (rule step.claimed [OF _ _ example_base c]) simp_all
  then show ?thesis by simp
qed

lemma step3:
  "step example_env
     \<lparr>shared = world3, calls = [In_flight example_info ''polisci_syllabus.pdf'',
                                In_flight example_info ''polisci_syllabus_1.pdf'']\<rparr>
     \<lparr>shared = world4, calls = [Returned True (Some ''polisci_syllabus.pdf''),
                                In_flight example_info ''polisci_syllabus_1.pdf'']\<rparr>"
  (is "step _ ?s ?s'")
proof -
  have t: "transfer (shared ?s) (url example_info) ''polisci_syllabus.pdf''
             (Response ''application/pdf'' [37, 80, 68, 70]) True = (Downloaded, world4)"
    by (simp add: transfer1)
  have "step example_env ?s
          \<lparr>shared = world4,
           calls = (calls ?s)[0 := Returned (success Downloaded) (Some ''polisci_syllabus.pdf'')]\<rparr>"
    by (rule step.finished [OF _ _ t]) simp_all
  then show ?thesis by (simp add: success_def)
qed

lemma step4:
  "step example_env
     \<lparr>shared = world4, calls = [Returned True (Some ''polisci_syllabus.pdf''),
                                In_flight example_info ''polisci_syllabus_1.pdf'']\<rparr>
     two_files"
  (is "step _ ?s _")
proof -
  have t: "transfer (shared ?s) (url example_info) ''polisci_syllabus_1.pdf''
             (Response ''application/pdf'' [37, 80, 68, 70]) True = (Downloaded, world5)"
    by (simp add: transfer2)
  have "step example_env ?s
          \<lparr>shared = world5,
           calls = (calls ?s)[1 := Returned (success Downloaded) (Some ''polisci_syllabus_1.pdf'')]\<rparr>"
    by (rule step.finished [OF _ _ t]) simp_all
  then show ?thesis by (simp add: success_def two_files_def)
qed

lemma example_run: "run example_env two_calls two_files"
  by (rule run.next_step [OF run.next_step [OF run.next_step [OF run.next_step [OF run.start step1] step2] step3] step4])

lemma example_initial: "initial two_calls"
  by (simp add: initial_def two_calls_def world1_def)

subsection \<open>Claim C1: no two successful calls commit the same filename\<close>

text \<open>
  C1. In every run of one downloader, with any number of calls of \<open>download_pdf\<close>
  interleaved in any order, where the block under the lock (membership test, counter
  suffix, registration) is one step: two different calls that both returned \<open>True\<close>
  committed different filenames, and both files are in the download folder.
\<close>

theorem committed_filenames_distinct:
  assumes "initial s0" and "run e s0 s"
    and "t < length (calls s)" and "u < length (calls s)" and "t \<noteq> u"
    and "calls s ! t = Returned True (Some n)" and "calls s ! u = Returned True (Some m)"
  shows "n \<noteq> m \<and> n \<in> dom (folder (shared s)) \<and> m \<in> dom (folder (shared s))"
proof -
  from run_inv [OF assms(2) initial_inv [OF assms(1)]]
  have o: "held_once s" and d: "committed_on_disk s" by simp_all
  from assms(6,7) have "holds (calls s ! t) = Some n" "holds (calls s ! u) = Some m" by simp_all
  with o assms(3,4,5) have "n \<noteq> m" unfolding held_once_def by blast
  moreover from d assms(3,4,6,7) have "n \<in> dom (folder (shared s))" "m \<in> dom (folder (shared s))"
    unfolding committed_on_disk_def by blast+
  ultimately show ?thesis by simp
qed

theorem committed_filenames_distinct_witness:
  "initial two_calls \<and> run example_env two_calls two_files
   \<and> (0::nat) < length (calls two_files) \<and> (1::nat) < length (calls two_files) \<and> (0::nat) \<noteq> 1
   \<and> calls two_files ! 0 = Returned True (Some ''polisci_syllabus.pdf'')
   \<and> calls two_files ! 1 = Returned True (Some ''polisci_syllabus_1.pdf'')
   \<and> ''polisci_syllabus.pdf'' \<noteq> ''polisci_syllabus_1.pdf''
   \<and> ''polisci_syllabus.pdf'' \<in> dom (folder (shared two_files))
   \<and> ''polisci_syllabus_1.pdf'' \<in> dom (folder (shared two_files))"
proof -
  have l: "(0::nat) < length (calls two_files)" "(1::nat) < length (calls two_files)" "(0::nat) \<noteq> 1"
    by (simp_all add: two_files_def)
  have c: "calls two_files ! 0 = Returned True (Some ''polisci_syllabus.pdf'')"
    "calls two_files ! 1 = Returned True (Some ''polisci_syllabus_1.pdf'')"
    by (simp_all add: two_files_def)
  from committed_filenames_distinct [OF example_initial example_run l c]
  show ?thesis using example_initial example_run l c by simp
qed

subsection \<open>Claim C6: a file that is already there is not fetched again\<close>

text \<open>
  C6. When the destination path derived for a reference (its base filename, suffixed
  until the name is not claimed) already exists in the download folder, \<open>download_pdf\<close>
  returns \<open>True\<close>, makes no request, leaves every file of the folder as it is, and
  registers the name.
\<close>

theorem download_pdf_skips_existing_file:
  assumes "base_filename e info = Some base"
    and "name = unique_filename (downloaded_files w) base base 1"
    and "name \<in> dom (folder w)"
  shows "fst (download_pdf e w info) = True
       \<and> folder (snd (download_pdf e w info)) = folder w
       \<and> requests (snd (download_pdf e w info)) = requests w
       \<and> downloaded_files (snd (download_pdf e w info)) = finsert name (downloaded_files w)"
  using assms
  by (simp add: download_pdf_def download_pdf_outcome_def claim_def success_def Let_def)

theorem download_pdf_skips_existing_file_witness:
  "base_filename example_env example_info = Some ''polisci_syllabus.pdf''
   \<and> ''polisci_syllabus.pdf''
       = unique_filename (downloaded_files world_with_file) ''polisci_syllabus.pdf'' ''polisci_syllabus.pdf'' 1
   \<and> ''polisci_syllabus.pdf'' \<in> dom (folder world_with_file)
   \<and> fst (download_pdf example_env world_with_file example_info) = True
   \<and> folder (snd (download_pdf example_env world_with_file example_info)) = folder world_with_file
   \<and> requests (snd (download_pdf example_env world_with_file example_info)) = []
   \<and> downloaded_files (snd (download_pdf example_env world_with_file example_info))
       = {|''polisci_syllabus.pdf''|}"
proof -
  have u: "''polisci_syllabus.pdf''
       = unique_filename (downloaded_files world_with_file) ''polisci_syllabus.pdf'' ''polisci_syllabus.pdf'' 1"
    by (simp add: world_with_file_def unique1)
  have d: "''polisci_syllabus.pdf'' \<in> dom (folder world_with_file)"
    by (simp add: world_with_file_def)
  from download_pdf_skips_existing_file [OF example_base u d]
  show ?thesis using example_base u d by (simp add: world_with_file_def)
qed

subsection \<open>Claim C7: the content check of a completed transfer\<close>

text \<open>
  C7. For a reference whose name is claimed and whose request completes with a
  response: the call ends as "Not a valid PDF" if and only if the content type does
  not contain \<open>application/pdf\<close> and the body has fewer than 1024 bytes; and then it
  returns \<open>False\<close>, no file of the folder is written, and the claimed name is no longer in
  the registry.
\<close>

theorem download_pdf_content_validation:
  assumes "base_filename e info = Some base"
    and "name = unique_filename (downloaded_files w) base base 1"
    and "name \<notin> dom (folder w)"
    and "http_get e (url info) = Response content_type content"
  shows "(fst (download_pdf_outcome e w info) = Not_valid_pdf
            \<longleftrightarrow> \<not> str_in ''application/pdf'' (lower content_type) \<and> length content < 1024)
       \<and> (fst (download_pdf_outcome e w info) = Not_valid_pdf \<longrightarrow>
            fst (download_pdf e w info) = False
          \<and> folder (snd (download_pdf e w info)) = folder w
          \<and> name |\<notin>| downloaded_files (snd (download_pdf e w info)))"
  using assms
  by (auto simp: download_pdf_def download_pdf_outcome_def claim_def transfer_def discard_def
        success_def Let_def split: if_splits)

theorem download_pdf_content_validation_witness:
  "base_filename html_env example_info = Some ''polisci_syllabus.pdf''
   \<and> ''polisci_syllabus.pdf''
       = unique_filename (downloaded_files world1) ''polisci_syllabus.pdf'' ''polisci_syllabus.pdf'' 1
   \<and> ''polisci_syllabus.pdf'' \<notin> dom (folder world1)
   \<and> http_get html_env (url example_info) = Response ''text/html'' [60, 104, 62]
   \<and> \<not> str_in ''application/pdf'' (lower ''text/html'') \<and> length [60, 104, 62 :: nat] < 1024
   \<and> fst (download_pdf_outcome html_env world1 example_info) = Not_valid_pdf
   \<and> fst (download_pdf html_env world1 example_info) = False
   \<and> folder (snd (download_pdf html_env world1 example_info)) = folder world1
   \<and> ''polisci_syllabus.pdf'' |\<notin>| downloaded_files (snd (download_pdf html_env world1 example_info))"
proof -
  have b: "base_filename html_env example_info = Some ''polisci_syllabus.pdf''"
    by (simp add: base_filename_def html_env_def example_info_def endswith_def startswith_def
          lower_def lower_char_def)
  have u: "''polisci_syllabus.pdf''
       = unique_filename (downloaded_files world1) ''polisci_syllabus.pdf'' ''polisci_syllabus.pdf'' 1"
    by (simp add: world1_def unique1)
  have d: "''polisci_syllabus.pdf'' \<notin> dom (folder world1)"
    by (simp add: world1_def)
  have r: "http_get html_env (url example_info) = Response ''text/html'' [60, 104, 62]"
    by (simp add: html_env_def)
  have t: "\<not> str_in ''application/pdf'' (lower ''text/html'')"
    by (simp add: lower_def lower_char_def startswith_def)
  from download_pdf_content_validation [OF b u d r] t
  show ?thesis using b u d r by simp
qed

subsection \<open>Claim C10: what \<open>sanitize_filename\<close> returns\<close>

text \<open>
  C10 says that the result of \<open>sanitize_filename\<close> never ends in whitespace. For a name
  of 199 letters, a space and one more letter, the joined words have 201 characters and
  the cut at 200 leaves the space at the end.
\<close>

theorem sanitize_filename_trailing_space:
  "sanitize_filename (replicate 199 CHR ''a'' @ '' b'') = replicate 199 CHR ''a'' @ '' ''
   \<and> isspace (last (sanitize_filename (replicate 199 CHR ''a'' @ '' b'')))"
  by code_simp

text \<open>
  The rest of what C10 says holds for every input: the result has at most 200
  characters, none of them one of the nine replaced characters, it does not begin with
  whitespace and has no two whitespace characters in a row.
\<close>

lemma split_from_clean:
  "(\<forall>c \<in> set w. \<not> isspace c) \<Longrightarrow> words_clean (split_from w cs)"
proof (induction cs arbitrary: w)
  case Nil
  then show ?case by (simp add: words_clean_def)
next
  case (Cons c cs)
  have e: "words_clean (split_from [] cs)" by (rule Cons.IH) simp
  show ?case
  proof (cases "isspace c")
    case True
    with e Cons.prems show ?thesis by (simp add: words_clean_def)
  next
    case False
    with Cons.prems have "\<forall>a \<in> set (w @ [c]). \<not> isspace a" by simp
    from Cons.IH [OF this] False show ?thesis by simp
  qed
qed

lemma split_from_chars:
  "x \<in> set (split_from w cs) \<Longrightarrow> set x \<subseteq> set w \<union> set cs"
proof (induction cs arbitrary: w)
  case Nil
  then show ?case by (auto split: if_splits)
next
  case (Cons c cs)
  show ?case
  proof (cases "isspace c")
    case True
    with Cons.prems have "x = w \<or> x \<in> set (split_from [] cs)" by (auto split: if_splits)
    with Cons.IH [of "[]"] show ?thesis by auto
  next
    case False
    with Cons.prems have "x \<in> set (split_from (w @ [c]) cs)" by simp
    from Cons.IH [OF this] show ?thesis by auto
  qed
qed

lemma join_chars: "set (join sep ws) \<subseteq> set sep \<union> \<Union> (set ` set ws)"
  by (induction sep ws rule: join.induct) auto

lemma join_head:
  "words_clean ws \<Longrightarrow> ws \<noteq> [] \<Longrightarrow> join sep ws \<noteq> [] \<and> \<not> isspace (hd (join sep ws))"
  by (induction sep ws rule: join.induct) (auto simp: words_clean_def hd_append)

lemma adjacent_spaces_word:
  "\<forall>c \<in> set w. \<not> isspace c \<Longrightarrow> adjacent_spaces (w @ ys) = adjacent_spaces ys"
proof (induction w)
  case Nil
  show ?case by simp
next
  case (Cons a w)
  then have "adjacent_spaces (w @ ys) = adjacent_spaces ys" and na: "\<not> isspace a" by simp_all
  then show ?case by (cases "w @ ys") simp_all
qed

lemma join_no_adjacent_spaces:
  "words_clean ws \<Longrightarrow> \<not> adjacent_spaces (join '' '' ws)"
proof (induction "'' ''" ws rule: join.induct)
  case 1
  show ?case by simp
next
  case (2 w)
  then have "\<forall>c \<in> set w. \<not> isspace c" by (simp add: words_clean_def)
  from adjacent_spaces_word [OF this, of "[]"] show ?case by simp
next
  case (3 w v ws)
  from "3.prems" have w: "\<forall>c \<in> set w. \<not> isspace c" and rest: "words_clean (v # ws)"
    by (simp_all add: words_clean_def)
  from join_head [OF rest, of "'' ''"] obtain c cs where j: "join '' '' (v # ws) = c # cs" and c: "\<not> isspace c"
    by (cases "join '' '' (v # ws)") auto
  from "3.hyps" [OF rest] j have "\<not> adjacent_spaces (c # cs)" by simp
  with c j have "\<not> adjacent_spaces ('' '' @ join '' '' (v # ws))" by simp
  with adjacent_spaces_word [OF w, of "'' '' @ join '' '' (v # ws)"] show ?case by simp
qed

lemma take_no_adjacent_spaces: "\<not> adjacent_spaces s \<Longrightarrow> \<not> adjacent_spaces (take n s)"
proof (induction s arbitrary: n rule: adjacent_spaces.induct)
  case 1
  show ?case by simp
next
  case (2 c)
  show ?case by (cases n) simp_all
next
  case (3 a b cs)
  show ?case
  proof (cases n)
    case 0
    then show ?thesis by simp
  next
    case (Suc m)
    from "3.prems" have ab: "\<not> (isspace a \<and> isspace b)" and r: "\<not> adjacent_spaces (b # cs)" by simp_all
    from "3.IH" [OF r, of m] have t: "\<not> adjacent_spaces (take m (b # cs))" .
    show ?thesis
    proof (cases m)
      case 0
      with Suc show ?thesis by simp
    next
      case (Suc k)
      with \<open>n = Suc m\<close> t ab show ?thesis by simp
    qed
  qed
qed

lemma replace_invalid_valid: "replace_invalid c \<notin> set invalid_chars"
  by (simp add: replace_invalid_def invalid_chars_def)

lemma sanitize_filename_other_parts:
  "length (sanitize_filename s) \<le> 200
   \<and> (\<forall>c \<in> set (sanitize_filename s). c \<notin> set invalid_chars)
   \<and> (sanitize_filename s \<noteq> [] \<longrightarrow> \<not> isspace (hd (sanitize_filename s)))
   \<and> \<not> adjacent_spaces (sanitize_filename s)"
proof -
  let ?ws = "split (map replace_invalid s)"
  have clean: "words_clean ?ws" unfolding split_def by (rule split_from_clean) simp
  have len: "length (sanitize_filename s) \<le> 200" by (simp add: sanitize_filename_def)
  have chars: "c \<notin> set invalid_chars" if "c \<in> set (sanitize_filename s)" for c
  proof -
    from that have "c \<in> set (join '' '' ?ws)"
      unfolding sanitize_filename_def by (rule in_set_takeD)
    with join_chars [of "'' ''" ?ws] have "c = CHR '' '' \<or> (\<exists>x \<in> set ?ws. c \<in> set x)" by auto
    then show ?thesis
    proof
      assume "c = CHR '' ''"
      then show ?thesis by (simp add: invalid_chars_def)
    next
      assume "\<exists>x \<in> set ?ws. c \<in> set x"
      then obtain x where "x \<in> set (split_from [] (map replace_invalid s))" "c \<in> set x"
        unfolding split_def by blast
      with split_from_chars [of x "[]" "map replace_invalid s"] have "c \<in> set (map replace_invalid s)"
        by auto
      then show ?thesis using replace_invalid_valid by auto
    qed
  qed
  have head: "\<not> isspace (hd (sanitize_filename s))" if "sanitize_filename s \<noteq> []"
  proof -
    from that have ne: "?ws \<noteq> []" by (auto simp: sanitize_filename_def)
    from join_head [OF clean ne, of "'' ''"] that show ?thesis
      by (simp add: sanitize_filename_def)
  qed
  have "\<not> adjacent_spaces (sanitize_filename s)"
    unfolding sanitize_filename_def
    by (rule take_no_adjacent_spaces [OF join_no_adjacent_spaces [OF clean]])
  with len chars head show ?thesis by blast
qed

section \<open>Properties of the job pipeline\<close>

subsection \<open>Claim C5: the cap on the references downloaded\<close>






subsection \<open>Claim C4: the fields of an extracted record\<close>

lemma map_of_dict_set: "map_of (dict_set d k v) = (map_of d)(k \<mapsto> v)"
  by (induction d k v rule: dict_set.induct) auto

lemma keys_dict_set: "fst ` set (dict_set d k v) = insert k (fst ` set d)"
  by (induction d k v rule: dict_set.induct) auto

lemma distinct_dict_set: "distinct (map fst d) \<Longrightarrow> distinct (map fst (dict_set d k v))"
  by (induction d k v rule: dict_set.induct) (auto simp: keys_dict_set)

lemma fold_dict_set_keys:
  "fst ` set (fold (\<lambda>field m. dict_set m field (g field)) fs d) = fst ` set d \<union> set fs"
  by (induction fs arbitrary: d) (auto simp: keys_dict_set)

lemma fold_dict_set_distinct:
  "distinct (map fst d) \<Longrightarrow> distinct (map fst (fold (\<lambda>field m. dict_set m field (g field)) fs d))"
  by (induction fs arbitrary: d) (auto simp: distinct_dict_set)

lemma fold_dict_set_lookup:
  "map_of (fold (\<lambda>field m. dict_set m field (g field)) fs d) f
     = (if f \<in> set fs then Some (g f) else map_of d f)"
  by (induction fs arbitrary: d) (auto simp: map_of_dict_set)

lemma filter_fields_keys: "fst ` set (filter_fields selected m) = set selected"
  unfolding filter_fields_def by (simp add: fold_dict_set_keys)

lemma filter_fields_distinct: "distinct (map fst (filter_fields selected m))"
  unfolding filter_fields_def by (rule fold_dict_set_distinct) simp

lemma filter_fields_lookup:
  "f \<in> set selected \<Longrightarrow>
   map_of (filter_fields selected m) f = Some (case map_of m f of Some v \<Rightarrow> v | None \<Rightarrow> Text ''Unknown'')"
  unfolding filter_fields_def by (simp add: fold_dict_set_lookup)

lemma unknown_metadata_lookup:
  "f \<in> set selected \<Longrightarrow> map_of (unknown_metadata selected) f = Some (Text ''Unknown'')"
  unfolding unknown_metadata_def by (simp add: fold_dict_set_lookup)

lemma process_pdf_results:
  assumes "extract_text_func x pdf = Returns text" and "text \<noteq> []"
  shows "snd (process_pdf x selected n i pdf (trace, results))
           = results @ [\<lparr>filename = pdf,
                          metadata = filter_fields selected
                            (fst (try_extractors x (enhanced_text x pdf text) selected))\<rparr>]"
  using assms by (simp add: process_pdf_def Let_def)

text \<open>
  C4. For a document whose text is extracted and is not empty, the loop body appends one
  record. The keys of its metadata are the selected fields, each once; every selected
  field has the value the extractor gave it, or \<open>Unknown\<close> when the extractor's output
  lacks it; and when the primary and the heuristic extractor both raise, every selected
  field is \<open>Unknown\<close>. The body is a total function of the outcomes of its collaborators:
  no exception leaves it.
\<close>

theorem extraction_record_fields:
  assumes "extract_text_func x pdf = Returns text" and "text \<noteq> []"
    and "extracted = fst (try_extractors x (enhanced_text x pdf text) selected)"
    and "doc = \<lparr>filename = pdf, metadata = filter_fields selected extracted\<rparr>"
  shows "snd (process_pdf x selected n i pdf (trace, results)) = results @ [doc]
       \<and> set (map fst (metadata doc)) = set selected
       \<and> distinct (map fst (metadata doc))
       \<and> (\<forall>f \<in> set selected.
            map_of (metadata doc) f
              = Some (case map_of extracted f of Some v \<Rightarrow> v | None \<Rightarrow> Text ''Unknown''))
       \<and> ((\<exists>e1 e2. llm_extract_func x (enhanced_text x pdf text) = Raises e1
                  \<and> heuristic_func x (enhanced_text x pdf text) = Raises e2)
            \<longrightarrow> (\<forall>f \<in> set selected. map_of (metadata doc) f = Some (Text ''Unknown'')))"
proof -
  have r: "snd (process_pdf x selected n i pdf (trace, results)) = results @ [doc]"
    using process_pdf_results [OF assms(1,2)] assms(3,4) by simp
  have u: "map_of (metadata doc) f = Some (Text ''Unknown'')"
    if "f \<in> set selected" "llm_extract_func x (enhanced_text x pdf text) = Raises e1"
      "heuristic_func x (enhanced_text x pdf text) = Raises e2" for f e1 e2
  proof -
    from that(2,3) assms(3) have "extracted = unknown_metadata selected"
      by (simp add: try_extractors_def)
    with that(1) assms(4) show ?thesis
      by (simp add: filter_fields_lookup unknown_metadata_lookup)
  qed
  from r u assms(4) show ?thesis
    by (auto simp: filter_fields_keys filter_fields_distinct filter_fields_lookup)
qed

theorem extraction_record_fields_witness:
  "extract_text_func failing_extractors ''a.pdf'' = Returns ''Syllabus'' \<and> ''Syllabus'' \<noteq> []
   \<and> (\<exists>e1 e2. llm_extract_func failing_extractors (enhanced_text failing_extractors ''a.pdf'' ''Syllabus'') = Raises e1
             \<and> heuristic_func failing_extractors (enhanced_text failing_extractors ''a.pdf'' ''Syllabus'') = Raises e2)
   \<and> snd (process_pdf failing_extractors [''year'', ''instructor''] 1 0 ''a.pdf'' ([job_started], []))
       = [\<lparr>filename = ''a.pdf'', metadata = [(''year'', Text ''Unknown''), (''instructor'', Text ''Unknown'')]\<rparr>]
   \<and> map_of [(''year'', Text ''Unknown''), (''instructor'', Text ''Unknown'')] ''year''
       = Some (Text ''Unknown'')
   \<and> map_of [(''year'', Text ''Unknown''), (''instructor'', Text ''Unknown'')] ''instructor''
       = Some (Text ''Unknown'')"
proof -
  have t: "extract_text_func failing_extractors ''a.pdf'' = Returns ''Syllabus''" and n: "''Syllabus'' \<noteq> []"
    by (simp_all add: failing_extractors_def)
  have f: "\<exists>e1 e2. llm_extract_func failing_extractors (enhanced_text failing_extractors ''a.pdf'' ''Syllabus'') = Raises e1
             \<and> heuristic_func failing_extractors (enhanced_text failing_extractors ''a.pdf'' ''Syllabus'') = Raises e2"
    by (simp add: failing_extractors_def)
  have m: "filter_fields [''year'', ''instructor'']
             (fst (try_extractors failing_extractors (enhanced_text failing_extractors ''a.pdf'' ''Syllabus'')
                     [''year'', ''instructor'']))
           = [(''year'', Text ''Unknown''), (''instructor'', Text ''Unknown'')]"
    by (simp add: filter_fields_def try_extractors_def failing_extractors_def unknown_metadata_def)
  from extraction_record_fields [OF t n refl refl, of "[''year'', ''instructor'']" 1 0 "[job_started]" "[]"] f
  show ?thesis using t n f unfolding m by simp
qed

text \<open>A document whose text cannot be extracted, or is empty, adds no record.\<close>

lemma process_pdf_no_record:
  "extract_text_func x pdf = Raises err \<or> extract_text_func x pdf = Returns [] \<Longrightarrow>
   snd (process_pdf x selected n i pdf (trace, results)) = results"
  by (auto simp: process_pdf_def Let_def)

subsection \<open>Claim C9: the reading-material columns of the CSV export\<close>

text \<open>
  C9. For a record whose reading materials are two items, one with requirement
  \<open>required\<close> and one with any other or no requirement, in either order:
  \<open>required_materials\<close> is the rendering of the first, \<open>optional_materials\<close> the
  rendering of the second, and \<open>reading_materials_count\<close> is 2.
\<close>

theorem csv_required_and_optional:
  assumes "map_of (metadata result) ''reading_materials'' = Some (Materials items)"
    and "items = [Item a, Item b] \<or> items = [Item b, Item a]"
    and "dict_get a ''requirement'' ''optional'' = ''required''"
    and "dict_get b ''requirement'' ''optional'' \<noteq> ''required''"
  shows "required_materials (reading_materials_columns result) = material_str a
       \<and> optional_materials (reading_materials_columns result) = material_str b
       \<and> reading_materials_count (reading_materials_columns result) = 2"
  using assms
  by (auto simp: reading_materials_columns_def reading_materials_of_def Let_def)

theorem csv_required_and_optional_witness:
  "map_of (metadata (hd stored_documents)) ''reading_materials''
     = Some (Materials [Item [(''title'', ''Leviathan''), (''creator'', ''Hobbes''),
                              (''requirement'', ''required''), (''type'', ''book'')],
                        Item [(''title'', ''The Prince''), (''requirement'', ''optional'')]])
   \<and> dict_get [(''title'', ''Leviathan''), (''creator'', ''Hobbes''),
                (''requirement'', ''required''), (''type'', ''book'')] ''requirement'' ''optional'' = ''required''
   \<and> dict_get [(''title'', ''The Prince''), (''requirement'', ''optional'')] ''requirement'' ''optional''
        \<noteq> ''required''
   \<and> required_materials (reading_materials_columns (hd stored_documents)) = ''Leviathan by Hobbes (book)''
   \<and> optional_materials (reading_materials_columns (hd stored_documents)) = ''The Prince (book)''
   \<and> reading_materials_count (reading_materials_columns (hd stored_documents)) = 2"
proof -
  let ?a = "[(''title'', ''Leviathan''), (''creator'', ''Hobbes''),
             (''requirement'', ''required''), (''type'', ''book'')]"
  let ?b = "[(''title'', ''The Prince''), (''requirement'', ''optional'')]"
  have m: "map_of (metadata (hd stored_documents)) ''reading_materials'' = Some (Materials [Item ?a, Item ?b])"
    by (simp add: stored_documents_def)
  have o: "[Item ?a, Item ?b] = [Item ?a, Item ?b] \<or> [Item ?a, Item ?b] = [Item ?b, Item ?a]" by simp
  have a: "dict_get ?a ''requirement'' ''optional'' = ''required''" by (simp add: dict_get_def)
  have b: "dict_get ?b ''requirement'' ''optional'' \<noteq> ''required''" by (simp add: dict_get_def)
  have sa: "material_str ?a = ''Leviathan by Hobbes (book)''" by (simp add: material_str_def dict_get_def)
  have sb: "material_str ?b = ''The Prince (book)''" by (simp add: material_str_def dict_get_def)
  from csv_required_and_optional [OF m o a b]
  show ?thesis using m a b by (simp add: sa sb)
qed

subsection \<open>Claim C8: the precondition of an extraction request\<close>

text \<open>
  C8 says that a request for a job whose folder holds no document is rejected at once
  and leaves the job entry as it is. For a job whose folder exists and is empty the
  handler answers "started", sets the entry to processing and schedules the task.
\<close>

theorem extract_metadata_empty_folder_counterexample:
  "pdf_files_of app_empty_folder ''j'' = []
   \<and> fst (extract_metadata app_empty_folder ''j'' [''year'']) = Answer ''started''
   \<and> map_option status (jobs_status (snd (extract_metadata app_empty_folder ''j'' [''year''])) ''j'')
        = Some Processing
   \<and> map_option status (jobs_status app_empty_folder ''j'') = Some Completed
   \<and> background_tasks (snd (extract_metadata app_empty_folder ''j'' [''year'']))
        = [Extract_task ''j'' [''year'']]"
  by (simp add: pdf_files_of_def extract_metadata_def app_empty_folder_def job_done_def)

text \<open>
  C8, amended. The existence of the job and of its folder is checked by the request
  handler: when either is missing the request is rejected with status 404 and nothing
  changes. When both exist the request is accepted, the entry becomes processing with
  progress 0, and the task is scheduled. Whether the folder holds a PDF is checked by
  the scheduled task: with none, it sets the status to error with the message
  "No PDF files found" and saves no result.
\<close>

theorem extract_metadata_precondition:
  "(jobs_status a job_id = None \<or> job_folders a job_id = None
      \<longrightarrow> extract_metadata a job_id selected = (Rejected 404, a))
   \<and> (jobs_status a job_id = Some j \<and> job_folders a job_id = Some names
      \<longrightarrow> fst (extract_metadata a job_id selected) = Answer ''started''
        \<and> background_tasks (snd (extract_metadata a job_id selected))
            = background_tasks a @ [Extract_task job_id selected]
        \<and> jobs_status (snd (extract_metadata a job_id selected)) job_id
            = Some (j\<lparr>status := Processing, progress := 0,
                       message := ''Starting metadata extraction...''\<rparr>))
   \<and> (jobs_status a job_id = Some j \<and> job_folders a job_id = Some names
        \<and> filter (\<lambda>f. endswith f ''.pdf'') names = []
      \<longrightarrow> jobs_status (run_extract_task x save_error (snd (extract_metadata a job_id selected))
                         job_id selected) job_id
            = Some (j\<lparr>status := Error, progress := 0, message := ''No PDF files found''\<rparr>)
        \<and> metadata_results (run_extract_task x save_error (snd (extract_metadata a job_id selected))
                              job_id selected)
            = metadata_results a)"
  by (auto simp: extract_metadata_def run_extract_task_def extract_metadata_background_def
        pdf_files_of_def put_def split: option.splits)

theorem extract_metadata_precondition_witness:
  "(jobs_status app_no_job ''j'' = None \<or> job_folders app_no_job ''j'' = None)
   \<and> extract_metadata app_no_job ''j'' [''year''] = (Rejected 404, app_no_job)
   \<and> jobs_status app_empty_folder ''j'' = Some job_done \<and> job_folders app_empty_folder ''j'' = Some []
   \<and> filter (\<lambda>f. endswith f ''.pdf'') [] = []
   \<and> fst (extract_metadata app_empty_folder ''j'' [''year'']) = Answer ''started''
   \<and> background_tasks (snd (extract_metadata app_empty_folder ''j'' [''year'']))
        = [Extract_task ''j'' [''year'']]
   \<and> jobs_status (run_extract_task failing_extractors None
                    (snd (extract_metadata app_empty_folder ''j'' [''year''])) ''j'' [''year'']) ''j''
        = Some (job_done\<lparr>status := Error, progress := 0, message := ''No PDF files found''\<rparr>)"
proof -
  have n: "jobs_status app_no_job ''j'' = None \<or> job_folders app_no_job ''j'' = None"
    by (simp add: app_no_job_def)
  have e: "jobs_status app_empty_folder ''j'' = Some job_done \<and> job_folders app_empty_folder ''j'' = Some []"
    by (simp add: app_empty_folder_def)
  from extract_metadata_precondition [where a = app_no_job and job_id = "''j''" and selected = "[''year'']"] n
  have 1: "extract_metadata app_no_job ''j'' [''year''] = (Rejected 404, app_no_job)" by blast
  from extract_metadata_precondition [where a = app_empty_folder and job_id = "''j''" and j = job_done
      and names = "[]" and selected = "[''year'']" and x = failing_extractors and save_error = None] e
  show ?thesis using n 1 e by (simp add: app_empty_folder_def)
qed

subsection \<open>Claim C3: a cross-reference request while one is running\<close>

lemma str_nat_Suc0: "str_nat (Suc 0) = ''1''" by code_simp

lemma of_total_1: "of_total 0 (Suc 0) = '' (1/1)''"
  by (simp add: of_total_def str_nat_Suc0)

text \<open>
  C3 says that a cross-reference request for a job whose cross-reference task is
  running is answered "already running" and starts no second task. While the task
  waits for the lookup of a document, the entry it wrote last has the message
  "Checking resources for ...", in which the handler's test finds neither "Primo" nor
  "library": the handler answers "started" and schedules the task a second time.
\<close>

theorem check_primo_resources_accepts_duplicate:
  "check_primo_background (\<lambda>m. Returns True) (Some (Documents stored_documents)) None job_extracted ! 2
     = job_checking
   \<and> status job_checking = Processing
   \<and> \<not> already_running job_checking
   \<and> fst (check_primo_resources app_checking ''j'') = Answer ''started''
   \<and> background_tasks (snd (check_primo_resources app_checking ''j'')) = [Primo_task ''j'', Primo_task ''j'']"
proof -
  have t: "check_primo_background (\<lambda>m. Returns True) (Some (Documents stored_documents)) None job_extracted ! 2
     = job_checking"
    by (simp add: check_primo_background_def stored_documents_def put_def of_total_1
          reading_materials_of_def job_checking_def job_extracted_def)
  have r: "\<not> already_running job_checking"
    by (simp add: already_running_def job_checking_def job_extracted_def startswith_def lower_def lower_char_def)
  have s: "status job_checking = Processing" by (simp add: job_checking_def)
  from t r s show ?thesis
    by (simp add: check_primo_resources_def app_checking_def stored_documents_def)
qed

subsection \<open>Claim C2: the progress value when a stage ends in error\<close>

text \<open>
  C2 says that the progress is reset to 0 whenever the status becomes error. When the
  results file cannot be written, the extraction task ends with status error and
  progress 90, and the cross-reference task with status error and progress 95.
\<close>

theorem extraction_error_keeps_progress:
  "map progress (fst (extract_metadata_background working_extractors [''a.pdf''] (Some ''No space left on device'')
                        [''year''] job_started))
     = [0, 0, 5, 90, 90]
   \<and> status (last (fst (extract_metadata_background working_extractors [''a.pdf'']
                           (Some ''No space left on device'') [''year''] job_started))) = Error
   \<and> progress (last (fst (extract_metadata_background working_extractors [''a.pdf'']
                             (Some ''No space left on device'') [''year''] job_started))) = 90
   \<and> map progress (check_primo_background (\<lambda>m. Returns True) (Some (Documents stored_documents))
                      (Some ''No space left on device'') job_extracted)
     = [100, 0, 0, 95, 95]
   \<and> status (last (check_primo_background (\<lambda>m. Returns True) (Some (Documents stored_documents))
                      (Some ''No space left on device'') job_extracted)) = Error"
  by (simp add: extract_metadata_background_def process_pdf_def put_def working_extractors_def
        job_started_def job_acquired_def try_extractors_def enhanced_text_def Let_def
        check_primo_background_def stored_documents_def reading_materials_of_def job_extracted_def)

text \<open>
  What C2 says of completion holds in both stages: a task that saves its results ends
  with status completed and progress 100.
\<close>

lemma stage_completed_progress:
  "pdf_files \<noteq> [] \<Longrightarrow>
     status (last (fst (extract_metadata_background x pdf_files None selected job0))) = Completed
   \<and> progress (last (fst (extract_metadata_background x pdf_files None selected job0))) = 100"
  "results \<noteq> [] \<Longrightarrow>
     status (last (check_primo_background lookup (Some (Documents results)) None job0)) = Completed
   \<and> progress (last (check_primo_background lookup (Some (Documents results)) None job0)) = 100"
  by (auto simp: extract_metadata_background_def check_primo_background_def put_def Let_def
        split: prod.splits)

end
